theory Spec2Isabelle
  imports Main "HOL-Library.AList" "HOL-Library.List_Lexorder"
begin

section \<open>Strings and dictionaries of the source\<close>

text \<open>
  A Python \<open>str\<close> is a sequence of Unicode code points: \<open>len\<close>, slicing and comparison all
  work on code points. It is modelled as a list of natural numbers, one per code point, so
  that a slice \<open>s[:n]\<close> is \<open>take n s\<close> and \<open><\<close> on \<open>str\<close> is the lexicographic order on
  lists. \<open>u\<close> turns an ASCII literal into such a string.
\<close>

type_synonym ustr = "nat list"

definition u :: "string \<Rightarrow> ustr" where
  "u s = map of_char s"

text \<open>
  A dictionary with string keys is an association list in insertion order. \<open>get\<close> is
  \<open>dict.get(key, default)\<close>, \<open>setitem\<close> is \<open>d[key] = value\<close> (an existing key keeps its
  position, a new one goes last).

  A \<open>row\<close> is a \<open>Dict[str, str]\<close>, the type that \<open>build_prompt\<close> and \<open>summarize_emails\<close>
  declare for an email. What \<open>csv.DictReader\<close> yields is a \<open>raw_row\<close>: every column of the
  header is a key, and the value is the cell of the line, or Python's \<open>None\<close> when the line
  is too short to have that cell. A \<open>cell\<close> is \<open>Some s\<close> for the string \<open>s\<close> and \<open>None\<close> for
  \<open>None\<close>. (Cells beyond the header are stored under the key \<open>None\<close>, which the code never
  reads; they are left out.)
\<close>

type_synonym row = "(ustr \<times> ustr) list"

type_synonym cell = "ustr option"

type_synonym raw_row = "(ustr \<times> cell) list"

definition get :: "(ustr \<times> 'v) list \<Rightarrow> ustr \<Rightarrow> 'v \<Rightarrow> 'v" where
  "get d k dflt = (case map_of d k of None \<Rightarrow> dflt | Some v \<Rightarrow> v)"

definition setitem :: "(ustr \<times> 'v) list \<Rightarrow> ustr \<Rightarrow> 'v \<Rightarrow> (ustr \<times> 'v) list" where
  "setitem d k v = AList.update k v d"

text \<open>The exceptions that the model tells apart.\<close>

datatype exn =
    FileNotFoundError
  | CalledProcessError int
  | HTTPError int
  | URLError
  | RuntimeError
  | IndexError
  | KeyError
  | TypeError

section \<open>Tabular parser\<close>

text \<open>
  \<open>list.sort(key=f, reverse=True)\<close>: a stable sort into descending key order. Python
  keeps equal keys in their original order also when reversing; it does so by reversing
  the list, sorting stably in ascending order, and reversing the result.
\<close>

definition sort_reverse :: "('a \<Rightarrow> 'k::linorder) \<Rightarrow> 'a list \<Rightarrow> 'a list" where
  "sort_reverse f xs = rev (sort_key f (rev xs))"

text \<open>
  The same sort on keys that may be \<open>None\<close>. Python orders neither \<open>None\<close> and a string nor
  \<open>None\<close> and \<open>None\<close>: the comparison raises \<open>TypeError\<close>. A list of two or more elements
  cannot be sorted without comparing every key with another one, so the sort raises as
  soon as one key is \<open>None\<close>; a list of fewer elements is returned without any comparison.
\<close>

definition key_str :: "cell \<Rightarrow> ustr" where
  "key_str c = (case c of None \<Rightarrow> [] | Some s \<Rightarrow> s)"

definition sort_reverse_cells :: "('a \<Rightarrow> cell) \<Rightarrow> 'a list \<Rightarrow> exn + 'a list" where
  "sort_reverse_cells f xs =
     (if 2 \<le> length xs \<and> None \<in> set (map f xs) then Inl TypeError
      else Inr (sort_reverse (\<lambda>x. key_str (f x)) xs))"

text \<open>
  \<open>parse_tsv\<close>: the argument is what the file system and \<open>csv.DictReader\<close> give for the
  path: \<open>None\<close> when the path does not exist, otherwise the rows read, in file order.
  \<open>row.get("received_at", "")\<close> is the empty string only for a row without the key, that
  is, when the header has no such column; for a line without that cell it is \<open>None\<close>.
\<close>

definition fill_received_at :: "raw_row \<Rightarrow> raw_row" where
  "fill_received_at r = setitem r (u ''received_at'') (get r (u ''received_at'') (Some []))"

definition parse_tsv :: "raw_row list option \<Rightarrow> exn + raw_row list" where
  "parse_tsv tsv =
     (case tsv of
        None \<Rightarrow> Inr []
      | Some reader \<Rightarrow>
          (let rows = filter (\<lambda>r. r \<noteq> []) reader;
               rows = map fill_received_at rows
           in sort_reverse_cells (\<lambda>r. get r (u ''received_at'') (Some [])) rows))"

section \<open>Prompt builder\<close>

text \<open>
  \<open>build_prompt\<close>: \<open>template.format(...)\<close> with the four fields put in place; the line feed
  is code point 10. The body is sliced with \<open>[:4000]\<close> first.
\<close>

definition build_prompt :: "row \<Rightarrow> ustr" where
  "build_prompt email_row =
     (let body = take 4000 (get email_row (u ''body'') [])
      in u ''Summarize the following unread email in under 70 words. ''
         @ u ''Highlight sender, topic, and any action items. Use single paragraph.'' @ [10]
         @ u ''Sender: '' @ get email_row (u ''sender'') (u ''Unknown'') @ [10]
         @ u ''Subject: '' @ get email_row (u ''subject'') (u ''(no subject)'') @ [10]
         @ u ''Received: '' @ get email_row (u ''received_at'') [] @ [10]
         @ u ''Body:'' @ [10]
         @ body @ [10])"

section \<open>String methods used by the pipeline\<close>

text \<open>
  \<open>str.splitlines()\<close>: the line boundaries are LF, VT, FF, CR, CR LF, FS, GS, RS, NEL, LS
  and PS; the boundaries are not kept, and a final boundary opens no further line.
\<close>

definition is_linebreak :: "nat \<Rightarrow> bool" where
  "is_linebreak c \<longleftrightarrow> c \<in> set [10, 11, 12, 13, 28, 29, 30, 133, 8232, 8233]"

function splitlines :: "ustr \<Rightarrow> ustr list" where
  "splitlines s =
     (if s = [] then []
      else (let line = takeWhile (\<lambda>c. \<not> is_linebreak c) s;
                rest = dropWhile (\<lambda>c. \<not> is_linebreak c) s
            in case rest of
                 [] \<Rightarrow> [line]
               | c # cs \<Rightarrow>
                   line # splitlines (if c = 13 \<and> cs \<noteq> [] \<and> hd cs = 10 then tl cs else cs)))"
  by pat_completeness auto
termination
proof (relation "measure length", goal_cases)
  case 1
  show ?case by simp
next
  case (2 s line rest c cs)
  from 2 have "dropWhile (\<lambda>c. \<not> is_linebreak c) s = c # cs"
    by simp
  then have "Suc (length cs) = length (dropWhile (\<lambda>c. \<not> is_linebreak c) s)"
    by simp
  also have "\<dots> \<le> length s"
    by (rule length_dropWhile_le)
  finally have "length cs < length s"
    by simp
  then have "length (tl cs) < length s"
    by simp
  with \<open>length cs < length s\<close> show ?case
    by auto
qed

declare splitlines.simps [simp del]

text \<open>
  \<open>str.strip()\<close> removes the characters for which \<open>str.isspace\<close> holds from both ends.
\<close>

definition is_space :: "nat \<Rightarrow> bool" where
  "is_space c \<longleftrightarrow>
     (9 \<le> c \<and> c \<le> 13) \<or> (28 \<le> c \<and> c \<le> 32) \<or> c = 133 \<or> c = 160 \<or> c = 5760
     \<or> (8192 \<le> c \<and> c \<le> 8202) \<or> c = 8232 \<or> c = 8233 \<or> c = 8239 \<or> c = 8287 \<or> c = 12288"

definition strip :: "ustr \<Rightarrow> ustr" where
  "strip s = rev (dropWhile is_space (rev (dropWhile is_space s)))"

text \<open>\<open>sep.join(lines)\<close>.\<close>

fun join :: "ustr \<Rightarrow> ustr list \<Rightarrow> ustr" where
  "join sep [] = []"
| "join sep [x] = x"
| "join sep (x # y # ys) = x @ sep @ join sep (y # ys)"

text \<open>
  The slice \<open>xs[:n]\<close> for an integer \<open>n\<close>: a negative \<open>n\<close> counts from the end.
\<close>

definition slice_to :: "int \<Rightarrow> 'a list \<Rightarrow> 'a list" where
  "slice_to n xs = (if 0 \<le> n then take (nat n) xs else take (length xs - nat (- n)) xs)"

section \<open>The outside world of one run\<close>

text \<open>
  A response body of the summarization backend, as far as \<open>gemini_request\<close> reads it: the
  candidates in order, each with its parts in order, each part with its \<open>text\<close> if it has
  one (\<open>or []\<close> and \<open>or {}\<close> in the source turn a missing level into an empty one).
\<close>

type_synonym response = "ustr option list list"

text \<open>
  What the run cannot decide itself is a parameter: whether the export script is there,
  the exit status of \<open>osascript\<close>, what the export file holds afterwards (\<open>None\<close>: the path
  does not exist), the answer to the \<open>k\<close>-th request to the summarization backend (for
  its URL and prompt), the answer of the webhook, and the clock.
\<close>

record env =
  script_exists :: bool
  osascript :: int
  export_file :: "raw_row list option"
  urlopen_gemini :: "nat \<Rightarrow> ustr \<Rightarrow> ustr \<Rightarrow> exn + response"
  urlopen_discord :: "ustr \<Rightarrow> ustr \<Rightarrow> exn option"
  now :: ustr

section \<open>Summarization client\<close>

fun first_text_parts :: "ustr option list \<Rightarrow> ustr option" where
  "first_text_parts [] = None"
| "first_text_parts (part # parts) =
     (case part of
        Some text \<Rightarrow> if text \<noteq> [] then Some text else first_text_parts parts
      | None \<Rightarrow> first_text_parts parts)"

fun first_text :: "response \<Rightarrow> ustr option" where
  "first_text [] = None"
| "first_text (cand # candidates) =
     (case first_text_parts cand of
        Some text \<Rightarrow> Some text
      | None \<Rightarrow> first_text candidates)"

definition gemini_url :: "ustr \<Rightarrow> ustr \<Rightarrow> ustr" where
  "gemini_url api_key model =
     u ''https://generativelanguage.googleapis.com/v1beta/models/'' @ model
     @ u '':generateContent?key='' @ api_key"

text \<open>
  \<open>gemini_request\<close>, as the \<open>k\<close>-th request of the run: a transport error is logged and
  raised again, a response without text raises \<open>RuntimeError\<close>.
\<close>

definition gemini_request :: "env \<Rightarrow> nat \<Rightarrow> ustr \<Rightarrow> ustr \<Rightarrow> ustr \<Rightarrow> exn + ustr" where
  "gemini_request e k api_key model prompt =
     (case urlopen_gemini e k (gemini_url api_key model) prompt of
        Inl exc \<Rightarrow> Inl exc
      | Inr response_json \<Rightarrow>
          (case first_text response_json of
             Some text \<Rightarrow> Inr (strip text)
           | None \<Rightarrow> Inl RuntimeError))"

record summary_record =
  sender :: ustr
  subject :: ustr
  summary :: ustr

definition make_summary :: "row \<Rightarrow> ustr \<Rightarrow> summary_record" where
  "make_summary r summary_text =
     \<lparr>sender = get r (u ''sender'') (u ''Unknown''),
      subject = get r (u ''subject'') (u ''(no subject)''),
      summary = summary_text\<rparr>"

text \<open>
  The loop of \<open>summarize_emails\<close>, with the summaries appended so far and the prompts sent
  to the backend so far. In a dry run the summary is built from \<open>prompt.splitlines()[0]\<close>,
  which raises \<open>IndexError\<close> on a prompt without lines; otherwise every exception of
  \<open>gemini_request\<close> is caught and the loop goes on with the next row.
\<close>

fun summarize_loop ::
  "env \<Rightarrow> ustr \<Rightarrow> ustr \<Rightarrow> bool \<Rightarrow> row list \<Rightarrow> summary_record list \<Rightarrow> ustr list
     \<Rightarrow> (exn + summary_record list) \<times> ustr list" where
  "summarize_loop e api_key model dry_run [] summaries sent = (Inr summaries, sent)"
| "summarize_loop e api_key model dry_run (r # rows) summaries sent =
     (let prompt = build_prompt r
      in if dry_run then
           (case splitlines prompt of
              [] \<Rightarrow> (Inl IndexError, sent)
            | line # _ \<Rightarrow>
                summarize_loop e api_key model dry_run rows
                  (summaries @ [make_summary r (u ''[dry-run] '' @ line)]) sent)
         else
           (case gemini_request e (length sent) api_key model prompt of
              Inl exc \<Rightarrow> summarize_loop e api_key model dry_run rows summaries (sent @ [prompt])
            | Inr summary_text \<Rightarrow>
                summarize_loop e api_key model dry_run rows
                  (summaries @ [make_summary r summary_text]) (sent @ [prompt])))"

definition summarize_emails ::
  "env \<Rightarrow> row list \<Rightarrow> row \<Rightarrow> bool \<Rightarrow> (exn + summary_record list) \<times> ustr list" where
  "summarize_emails e rows config dry_run =
     (let api_key = get config (u ''GEMINI_API_KEY'') [];
          model = get config (u ''GEMINI_MODEL'') (u ''gemini-1.5-flash'')
      in summarize_loop e api_key model dry_run rows [] [])"

section \<open>Digest formatter\<close>

text \<open>
  \<open>format_discord_payload\<close>, with the time stamp of the clock as an argument. The dash of
  the entry header is the em dash, code point 8212; the divider is thirty hyphens. The
  result is the string stored under \<open>content\<close>.
\<close>

definition divider :: ustr where
  "divider = replicate 30 45"

definition entry_header :: "summary_record \<Rightarrow> ustr" where
  "entry_header entry = u ''**'' @ sender entry @ [32, 8212, 32] @ subject entry @ u ''**''"

fun append_entries :: "ustr list \<Rightarrow> summary_record list \<Rightarrow> ustr list" where
  "append_entries lines [] = lines"
| "append_entries lines (entry # summaries) =
     append_entries (lines @ [entry_header entry] @ [strip (summary entry)] @ [divider]) summaries"

definition format_discord_payload :: "ustr \<Rightarrow> summary_record list \<Rightarrow> ustr" where
  "format_discord_payload timestamp summaries =
     (let lines = append_entries [u ''**UTD Mail Digest - '' @ timestamp @ u ''**''] summaries;
          content = join [10] (if last lines = divider then butlast lines else lines)
      in take 1900 content)"

section \<open>Delivery client\<close>

definition post_to_discord :: "env \<Rightarrow> ustr \<Rightarrow> ustr \<Rightarrow> exn option" where
  "post_to_discord e webhook_url content = urlopen_discord e webhook_url content"

section \<open>Orchestrator\<close>

text \<open>
  What a run does to the outside, in order: starting the export script, a request to the
  summarization backend (its prompt), a post to the webhook (its content), a dry-run log
  line for a summary, and the removal of the temporary export file.
\<close>

datatype event =
    Osascript
  | GeminiPost ustr
  | DiscordPost ustr
  | LogDryRun summary_record
  | Unlink

text \<open>
  \<open>run_applescript\<close>: the exception raised, if any, and whether the temporary file, which
  \<open>mkstemp\<close> has created, is still there afterwards.
\<close>

definition run_applescript :: "env \<Rightarrow> exn option \<times> bool \<times> event list" where
  "run_applescript e =
     (if \<not> script_exists e then (Some FileNotFoundError, True, [])
      else (if osascript e \<noteq> 0 then Some (CalledProcessError (osascript e)) else None,
            export_file e \<noteq> None, [Osascript]))"

definition getitem :: "row \<Rightarrow> ustr \<Rightarrow> exn + ustr" where
  "getitem d k = (case map_of d k of None \<Rightarrow> Inl KeyError | Some v \<Rightarrow> Inr v)"

text \<open>
  \<open>main\<close> passes the rows of the parser to \<open>summarize_emails\<close> as they are, also when a
  cell is \<open>None\<close>. Where the code formats such a value (\<open>str.format\<close>, an f-string, \<open>%s\<close> of
  the log) the text is \<open>None\<close>; a body that is \<open>None\<close> cannot be sliced, and \<open>build_prompt\<close>
  raises \<open>TypeError\<close>.
\<close>

definition str_of_cell :: "cell \<Rightarrow> ustr" where
  "str_of_cell c = (case c of None \<Rightarrow> u ''None'' | Some s \<Rightarrow> s)"

definition formatted :: "raw_row \<Rightarrow> row" where
  "formatted r = map (\<lambda>(k, c). (k, str_of_cell c)) r"

definition body_is_none :: "raw_row \<Rightarrow> bool" where
  "body_is_none r \<longleftrightarrow> map_of r (u ''body'') = Some None"

text \<open>
  The body of the \<open>try\<close> statement of \<open>main\<close>: the value returned or the exception raised,
  whether the temporary file exists at that point, and the events so far. The loop of
  \<open>summarize_emails\<close> handles the rows one after the other and calls \<open>build_prompt\<close> outside
  its \<open>try\<close>: the rows before the first one whose body is \<open>None\<close> are handled as usual, then
  the \<open>TypeError\<close> of that row ends \<open>summarize_emails\<close> and the \<open>try\<close> body.
\<close>

definition main_try :: "env \<Rightarrow> row \<Rightarrow> int \<Rightarrow> bool \<Rightarrow> (exn + int) \<times> bool \<times> event list" where
  "main_try e config max_emails dry_run =
     (case run_applescript e of
        (Some exc, tmp, tr) \<Rightarrow> (Inl exc, tmp, tr)
      | (None, tmp, tr) \<Rightarrow>
          (case parse_tsv (export_file e) of
             Inl exc \<Rightarrow> (Inl exc, tmp, tr)
           | Inr emails \<Rightarrow>
               if emails = [] then (Inr 0, tmp, tr)
               else
                 (let rows = slice_to max_emails emails;
                      handled = takeWhile (\<lambda>r. \<not> body_is_none r) rows
                  in case summarize_emails e (map formatted handled) config dry_run of
                       (Inl exc, sent) \<Rightarrow> (Inl exc, tmp, tr @ map GeminiPost sent)
                     | (Inr summaries, sent) \<Rightarrow>
                         (let tr = tr @ map GeminiPost sent
                          in if handled \<noteq> rows then (Inl TypeError, tmp, tr)
                             else if summaries = [] then (Inr 0, tmp, tr)
                             else if dry_run then (Inr 0, tmp, tr @ map LogDryRun summaries)
                             else
                               (let payload = format_discord_payload (now e) summaries
                                in case getitem config (u ''DISCORD_WEBHOOK'') of
                                     Inl exc \<Rightarrow> (Inl exc, tmp, tr)
                                   | Inr webhook \<Rightarrow>
                                       (case post_to_discord e webhook payload of
                                          Some exc \<Rightarrow>
                                            (Inl exc, tmp, tr @ [DiscordPost payload])
                                        | None \<Rightarrow>
                                            (Inr 0, tmp, tr @ [DiscordPost payload])))))))"

text \<open>
  \<open>Path.unlink(missing_ok)\<close> on a path that exists or not: the exception raised, if any,
  and whether the path exists afterwards.
\<close>

definition unlink :: "bool \<Rightarrow> bool \<Rightarrow> exn option \<times> bool" where
  "unlink missing_ok exists =
     (if exists then (None, False)
      else if missing_ok then (None, False)
      else (Some FileNotFoundError, False))"

record outcome =
  status :: "exn + int"
  tmp_exists :: bool
  trace :: "event list"

text \<open>
  \<open>main\<close> from the creation of the temporary file on: the \<open>try\<close> body, then the \<open>finally\<close>
  clause, which removes the file, lets a \<open>FileNotFoundError\<close> of the removal pass, and
  leaves the result of the body as it is.
\<close>

definition main :: "env \<Rightarrow> row \<Rightarrow> int \<Rightarrow> bool \<Rightarrow> outcome" where
  "main e config max_emails dry_run =
     (case main_try e config max_emails dry_run of
        (result, tmp, tr) \<Rightarrow>
          (case unlink True tmp of
             (raised, tmp') \<Rightarrow>
               \<lparr>status = (case raised of
                            None \<Rightarrow> result
                          | Some exc \<Rightarrow> if exc = FileNotFoundError then result else Inl exc),
                tmp_exists = tmp',
                trace = tr @ [Unlink]\<rparr>))"


section \<open>Observations on a run\<close>

text \<open>
  The prompts sent to the summarization backend, the contents posted to the webhook and
  the summaries logged by a dry run, read off the events of a run in their order.
\<close>

fun gemini_posts :: "event list \<Rightarrow> ustr list" where
  "gemini_posts [] = []"
| "gemini_posts (GeminiPost prompt # evs) = prompt # gemini_posts evs"
| "gemini_posts (_ # evs) = gemini_posts evs"

fun discord_posts :: "event list \<Rightarrow> ustr list" where
  "discord_posts [] = []"
| "discord_posts (DiscordPost content # evs) = content # discord_posts evs"
| "discord_posts (_ # evs) = discord_posts evs"

fun dry_run_logs :: "event list \<Rightarrow> summary_record list" where
  "dry_run_logs [] = []"
| "dry_run_logs (LogDryRun entry # evs) = entry # dry_run_logs evs"
| "dry_run_logs (_ # evs) = dry_run_logs evs"

text \<open>
  The digest as the specification words it, written out character by character: the
  header line with the time stamp; for each summary, in order, a line with sender, em
  dash and subject between two pairs of asterisks and then the trimmed summary text; a
  line of thirty hyphens between two entries and none after the last. Trimming a text
  takes the white space off its two ends, one character at a time.
\<close>

fun spec_trim_left :: "ustr \<Rightarrow> ustr" where
  "spec_trim_left [] = []"
| "spec_trim_left (c # cs) = (if is_space c then spec_trim_left cs else c # cs)"

definition spec_trim :: "ustr \<Rightarrow> ustr" where
  "spec_trim s = rev (spec_trim_left (rev (spec_trim_left s)))"

definition spec_entry :: "summary_record \<Rightarrow> ustr" where
  "spec_entry entry =
     u ''**'' @ sender entry @ [32, 8212, 32] @ subject entry @ u ''**'' @ [10]
     @ spec_trim (summary entry)"

fun spec_entries_text :: "summary_record list \<Rightarrow> ustr" where
  "spec_entries_text [] = []"
| "spec_entries_text [entry] = spec_entry entry"
| "spec_entries_text (entry # next_entry # entries) =
     spec_entry entry @ [10] @ u ''------------------------------'' @ [10]
     @ spec_entries_text (next_entry # entries)"

definition spec_digest_text :: "ustr \<Rightarrow> summary_record list \<Rightarrow> ustr" where
  "spec_digest_text timestamp summaries =
     u ''**UTD Mail Digest - '' @ timestamp @ u ''**'' @ [10] @ spec_entries_text summaries"

text \<open>
  The first line of the template of \<open>build_prompt\<close>, and the summary a dry run derives
  from it.
\<close>

definition template_first_line :: ustr where
  "template_first_line =
     u ''Summarize the following unread email in under 70 words. ''
     @ u ''Highlight sender, topic, and any action items. Use single paragraph.''"

definition dry_run_summary :: "row \<Rightarrow> summary_record" where
  "dry_run_summary r = make_summary r (u ''[dry-run] '' @ template_first_line)"

text \<open>
  The outcome of the summarization of one numbered record: its summary record when
  \<open>gemini_request\<close> returns, nothing when it raises.
\<close>

definition attempt :: "env \<Rightarrow> ustr \<Rightarrow> ustr \<Rightarrow> nat \<times> row \<Rightarrow> summary_record option" where
  "attempt e api_key model kr =
     (case gemini_request e (fst kr) api_key model (build_prompt (snd kr)) of
        Inl exc \<Rightarrow> None
      | Inr summary_text \<Rightarrow> Some (make_summary (snd kr) summary_text))"

section \<open>Example inputs\<close>

text \<open>
  Three emails, an export that holds them (every cell a string), and a world in which the
  export succeeds, the second request to the summarization backend fails and the others
  are answered.
\<close>

definition row_alice :: row where
  "row_alice = [(u ''sender'', u ''Alice''), (u ''subject'', u ''Budget''),
                (u ''received_at'', u ''2024-01-01T10:00''), (u ''body'', u ''Need approval'')]"

definition row_bob :: row where
  "row_bob = [(u ''sender'', u ''Bob''), (u ''subject'', u ''Lunch''),
              (u ''received_at'', u ''2024-01-01T09:00''), (u ''body'', u ''Noon?'')]"

definition row_carol :: row where
  "row_carol = [(u ''sender'', u ''Carol''), (u ''subject'', u ''Notes''),
                (u ''received_at'', u ''2024-01-01T08:00''), (u ''body'', u ''See file'')]"

definition cells :: "row \<Rightarrow> raw_row" where
  "cells r = map (\<lambda>(k, v). (k, Some v)) r"

definition example_env :: env where
  "example_env =
     \<lparr>script_exists = True,
      osascript = 0,
      export_file = Some [cells row_bob, cells row_alice, cells row_carol],
      urlopen_gemini =
        (\<lambda>k url prompt. if k = 1 then Inl URLError else Inr [[None, Some (u '' ok '')]]),
      urlopen_discord = (\<lambda>webhook content. None),
      now = u ''2024-01-01 11:00''\<rparr>"

definition example_config :: row where
  "example_config = [(u ''GEMINI_API_KEY'', u ''k''), (u ''DISCORD_WEBHOOK'', u ''w'')]"

text \<open>
  A line of the export with two cells only, as \<open>csv.DictReader\<close> returns it under the
  header \<open>sender\<close>, \<open>subject\<close>, \<open>received_at\<close>, \<open>body\<close>.
\<close>

definition short_row :: raw_row where
  "short_row = [(u ''sender'', Some (u ''Alice'')), (u ''subject'', Some (u ''Budget'')),
                (u ''received_at'', None), (u ''body'', None)]"

text \<open>An email of an export whose header has the column \<open>body\<close> only.\<close>

definition row_anon :: row where
  "row_anon = [(u ''body'', u ''hello'')]"

text \<open>
  Two summaries for the digest, and one whose text alone is longer than the limit of the
  digest.
\<close>

definition entry_a :: summary_record where
  "entry_a = \<lparr>sender = u ''A'', subject = u ''S'', summary = u '' x ''\<rparr>"

definition entry_b :: summary_record where
  "entry_b = \<lparr>sender = u ''B'', subject = u ''T'', summary = u ''y''\<rparr>"

definition long_entry :: summary_record where
  "long_entry = \<lparr>sender = u ''A'', subject = u ''S'', summary = replicate 2000 120\<rparr>"

section \<open>Properties of the tabular parser\<close>

lemma sort_reverse_stable:
  "filter (\<lambda>y. f y = k) (sort_reverse f xs) = filter (\<lambda>y. f y = k) xs"
  by (simp add: sort_reverse_def sort_key_stable flip: rev_filter)

lemma sort_reverse_descending: "sorted_wrt (\<lambda>a b. f b \<le> f a) (sort_reverse f xs)"
proof -
  have "sorted (map f (sort_key f (rev xs)))"
    by simp
  then have "sorted_wrt (\<lambda>a b. f a \<le> f b) (sort_key f (rev xs))"
    by (simp only: sorted_map)
  then show ?thesis
    by (simp add: sort_reverse_def sorted_wrt_rev)
qed

lemma sort_reverse_stable_finer:
  assumes "\<And>y. P y \<Longrightarrow> f y = k"
  shows "filter P (sort_reverse f xs) = filter P xs"
proof -
  have "filter P ys = filter P (filter (\<lambda>y. f y = k) ys)" for ys
    using assms by (induction ys) auto
  then have "filter P (sort_reverse f xs) = filter P (filter (\<lambda>y. f y = k) (sort_reverse f xs))"
    and "filter P (filter (\<lambda>y. f y = k) xs) = filter P xs"
    by simp_all
  then show ?thesis
    by (simp only: sort_reverse_stable)
qed

lemma get_fill_received_at:
  "get (fill_received_at r) (u ''received_at'') (Some []) = get r (u ''received_at'') (Some [])"
  by (simp add: fill_received_at_def get_def setitem_def update_conv' split: option.splits)

lemma parse_tsv_Some:
  "parse_tsv (Some reader) =
     sort_reverse_cells (\<lambda>r. get r (u ''received_at'') (Some []))
       (map fill_received_at (filter (\<lambda>r. r \<noteq> []) reader))"
  by (simp add: parse_tsv_def)

lemma parse_tsv_descending:
  assumes "parse_tsv tsv = Inr out"
  shows "sorted_wrt (\<lambda>a b. key_str (get b (u ''received_at'') (Some []))
                          \<le> key_str (get a (u ''received_at'') (Some []))) out"
proof (cases tsv)
  case None
  with assms show ?thesis by (simp add: parse_tsv_def)
next
  case (Some reader)
  with assms show ?thesis
    by (auto simp: parse_tsv_Some sort_reverse_cells_def sort_reverse_descending
        split: if_splits)
qed

text \<open>
  C3. The claim fails on a line without the \<open>received_at\<close> cell. \<open>csv.DictReader\<close> returns
  the row with \<open>None\<close> under \<open>received_at\<close>, so the default \<open>""\<close> of \<open>row.get\<close> is not taken:
  alone in the file the row is returned with \<open>None\<close>, not with the empty string, and
  together with another row the sort raises \<open>TypeError\<close> and no sequence is returned.
\<close>

theorem parse_tsv_missing_cell:
  "get short_row (u ''received_at'') (Some []) = None
   \<and> parse_tsv (Some [short_row]) = Inr [short_row]
   \<and> parse_tsv (Some [short_row, cells row_bob]) = Inl TypeError
   \<and> parse_tsv (Some [cells row_bob, short_row]) = Inl TypeError"
  by (simp add: parse_tsv_Some sort_reverse_cells_def sort_reverse_def fill_received_at_def
      get_def setitem_def short_row_def cells_def row_bob_def u_def)

text \<open>
  C10. Rows with the same \<open>received_at\<close> come out of the parser in the order they had in
  the file: whenever the parser returns, the rows of the result with a given value of
  \<open>received_at\<close> are the rows of the file with that value, in file order; and the parser
  returns whenever every row of the file has a string there.
\<close>

theorem parse_tsv_stable_on_ties:
  "(parse_tsv (Some reader) = Inr out \<longrightarrow>
      filter (\<lambda>r. get r (u ''received_at'') (Some []) = c) out =
      map fill_received_at
        (filter (\<lambda>r. r \<noteq> [] \<and> get r (u ''received_at'') (Some []) = c) reader))
   \<and> (None \<notin> set (map (\<lambda>r. get r (u ''received_at'') (Some [])) reader) \<longrightarrow>
        parse_tsv (Some reader) =
          Inr (sort_reverse (\<lambda>r. key_str (get r (u ''received_at'') (Some [])))
                 (map fill_received_at (filter (\<lambda>r. r \<noteq> []) reader))))"
proof (intro conjI impI)
  assume "parse_tsv (Some reader) = Inr out"
  then have out: "out = sort_reverse (\<lambda>r. key_str (get r (u ''received_at'') (Some [])))
                          (map fill_received_at (filter (\<lambda>r. r \<noteq> []) reader))"
    by (auto simp: parse_tsv_Some sort_reverse_cells_def split: if_splits)
  have "filter (\<lambda>r. get r (u ''received_at'') (Some []) = c) out =
        filter (\<lambda>r. get r (u ''received_at'') (Some []) = c)
          (map fill_received_at (filter (\<lambda>r. r \<noteq> []) reader))"
    unfolding out by (rule sort_reverse_stable_finer [where k = "key_str c"]) simp
  then show "filter (\<lambda>r. get r (u ''received_at'') (Some []) = c) out =
      map fill_received_at
        (filter (\<lambda>r. r \<noteq> [] \<and> get r (u ''received_at'') (Some []) = c) reader)"
    by (simp add: filter_map o_def get_fill_received_at conj_commute)
next
  assume "None \<notin> set (map (\<lambda>r. get r (u ''received_at'') (Some [])) reader)"
  then have "None \<notin> set (map (\<lambda>r. get r (u ''received_at'') (Some []))
                            (map fill_received_at (filter (\<lambda>r. r \<noteq> []) reader)))"
    by (auto simp: get_fill_received_at)
  then show "parse_tsv (Some reader) =
          Inr (sort_reverse (\<lambda>r. key_str (get r (u ''received_at'') (Some [])))
                 (map fill_received_at (filter (\<lambda>r. r \<noteq> []) reader)))"
    unfolding parse_tsv_Some sort_reverse_cells_def by simp
qed

theorem parse_tsv_stable_on_ties_witness:
  "filter (\<lambda>r. get r (u ''received_at'') (Some []) = Some (u ''1''))
     (sort_reverse (\<lambda>r. key_str (get r (u ''received_at'') (Some [])))
        (map fill_received_at
           (filter (\<lambda>r. r \<noteq> [])
              [[(u ''received_at'', Some (u ''1'')), (u ''sender'', Some (u ''a''))],
               [(u ''received_at'', Some (u ''2'')), (u ''sender'', Some (u ''b''))],
               [(u ''received_at'', Some (u ''1'')), (u ''sender'', Some (u ''c''))]]))) =
   [[(u ''received_at'', Some (u ''1'')), (u ''sender'', Some (u ''a''))],
    [(u ''received_at'', Some (u ''1'')), (u ''sender'', Some (u ''c''))]]"
proof -
  let ?reader = "[[(u ''received_at'', Some (u ''1'')), (u ''sender'', Some (u ''a''))],
                  [(u ''received_at'', Some (u ''2'')), (u ''sender'', Some (u ''b''))],
                  [(u ''received_at'', Some (u ''1'')), (u ''sender'', Some (u ''c''))]]"
  let ?out = "sort_reverse (\<lambda>r. key_str (get r (u ''received_at'') (Some [])))
                (map fill_received_at (filter (\<lambda>r. r \<noteq> []) ?reader))"
  have strings: "None \<notin> set (map (\<lambda>r. get r (u ''received_at'') (Some [])) ?reader)"
    by (simp add: get_def)
  with parse_tsv_stable_on_ties [of ?reader ?out "Some (u ''1'')"]
  have "filter (\<lambda>r. get r (u ''received_at'') (Some []) = Some (u ''1'')) ?out =
        map fill_received_at
          (filter (\<lambda>r. r \<noteq> [] \<and> get r (u ''received_at'') (Some []) = Some (u ''1''))
             ?reader)"
    by blast
  also have "\<dots> = [[(u ''received_at'', Some (u ''1'')), (u ''sender'', Some (u ''a''))],
                   [(u ''received_at'', Some (u ''1'')), (u ''sender'', Some (u ''c''))]]"
    by (simp add: get_def fill_received_at_def setitem_def u_def)
  finally show ?thesis .
qed

section \<open>Properties of the summarization stage\<close>

lemma template_first_line_no_linebreak: "\<forall>c \<in> set template_first_line. \<not> is_linebreak c"
  by (simp add: template_first_line_def u_def is_linebreak_def)

lemma splitlines_first_line:
  assumes "\<forall>c \<in> set p. \<not> is_linebreak c"
  shows "splitlines (p @ 10 # t) =
           p # splitlines (if (10::nat) = 13 \<and> t \<noteq> [] \<and> hd t = 10 then tl t else t)"
proof -
  have tw: "takeWhile (\<lambda>c. \<not> is_linebreak c) (p @ 10 # t) = p"
    using assms by (simp add: is_linebreak_def)
  have dw: "dropWhile (\<lambda>c. \<not> is_linebreak c) (p @ 10 # t) = 10 # t"
    using assms by (simp add: is_linebreak_def)
  show ?thesis
    by (subst splitlines.simps) (simp only: tw dw Let_def list.case, simp)
qed

lemma build_prompt_explicit:
  "build_prompt r =
     template_first_line @ [10]
     @ u ''Sender: '' @ get r (u ''sender'') (u ''Unknown'') @ [10]
     @ u ''Subject: '' @ get r (u ''subject'') (u ''(no subject)'') @ [10]
     @ u ''Received: '' @ get r (u ''received_at'') [] @ [10]
     @ u ''Body:'' @ [10]
     @ take 4000 (get r (u ''body'') []) @ [10]"
  by (simp add: build_prompt_def template_first_line_def)

lemma splitlines_build_prompt:
  "\<exists>rest. splitlines (build_prompt r) = template_first_line # rest"
proof -
  obtain t where "build_prompt r = template_first_line @ 10 # t"
    by (simp add: build_prompt_explicit)
  then show ?thesis
    using splitlines_first_line [OF template_first_line_no_linebreak, of t] by simp
qed

lemma summarize_loop_dry_run:
  "summarize_loop e api_key model True rows summaries sent =
     (Inr (summaries @ map dry_run_summary rows), sent)"
proof (induction rows arbitrary: summaries)
  case Nil
  show ?case by simp
next
  case (Cons r rows)
  obtain rest where "splitlines (build_prompt r) = template_first_line # rest"
    using splitlines_build_prompt by blast
  then show ?case
    by (simp add: Cons.IH dry_run_summary_def)
qed

lemma summarize_loop_live:
  "summarize_loop e api_key model False rows summaries sent =
     (Inr (summaries
           @ List.map_filter (attempt e api_key model) (List.enumerate (length sent) rows)),
      sent @ map build_prompt rows)"
proof (induction rows arbitrary: summaries sent)
  case Nil
  show ?case by (simp add: List.map_filter_simps)
next
  case (Cons r rows)
  show ?case
    by (cases "gemini_request e (length sent) api_key model (build_prompt r)")
       (simp_all add: Cons.IH List.map_filter_simps attempt_def)
qed



text \<open>
  C2, as amended. For every record, the prompt and the summary record derived from it
  carry the sender and the subject of the row as they are when the row has the key, also
  when the value is empty, and the placeholders \<open>Unknown\<close> and \<open>(no subject)\<close> when the row
  has no such key: this holds for the prompt of every row, for the summary of every row
  in a dry run, and for the summary of every row whose request returns otherwise.
\<close>

theorem placeholder_defaulting:
  "build_prompt r =
     template_first_line @ [10]
     @ u ''Sender: ''
     @ (case map_of r (u ''sender'') of None \<Rightarrow> u ''Unknown'' | Some v \<Rightarrow> v) @ [10]
     @ u ''Subject: ''
     @ (case map_of r (u ''subject'') of None \<Rightarrow> u ''(no subject)'' | Some v \<Rightarrow> v) @ [10]
     @ u ''Received: '' @ get r (u ''received_at'') [] @ [10]
     @ u ''Body:'' @ [10]
     @ take 4000 (get r (u ''body'') []) @ [10]
   \<and> fst (summarize_emails e rows config True) =
       Inr (map (\<lambda>r. \<lparr>sender = (case map_of r (u ''sender'') of
                                     None \<Rightarrow> u ''Unknown'' | Some v \<Rightarrow> v),
                        subject = (case map_of r (u ''subject'') of
                                     None \<Rightarrow> u ''(no subject)'' | Some v \<Rightarrow> v),
                        summary = u ''[dry-run] '' @ template_first_line\<rparr>) rows)
   \<and> fst (summarize_emails e rows config False) =
       Inr (List.map_filter
              (\<lambda>kr. case gemini_request e (fst kr) (get config (u ''GEMINI_API_KEY'') [])
                            (get config (u ''GEMINI_MODEL'') (u ''gemini-1.5-flash''))
                            (build_prompt (snd kr)) of
                       Inl exc \<Rightarrow> None
                     | Inr summary_text \<Rightarrow>
                         Some \<lparr>sender = (case map_of (snd kr) (u ''sender'') of
                                           None \<Rightarrow> u ''Unknown'' | Some v \<Rightarrow> v),
                               subject = (case map_of (snd kr) (u ''subject'') of
                                            None \<Rightarrow> u ''(no subject)'' | Some v \<Rightarrow> v),
                               summary = summary_text\<rparr>)
              (List.enumerate 0 rows))"
proof (intro conjI)
  show "build_prompt r =
     template_first_line @ [10]
     @ u ''Sender: ''
     @ (case map_of r (u ''sender'') of None \<Rightarrow> u ''Unknown'' | Some v \<Rightarrow> v) @ [10]
     @ u ''Subject: ''
     @ (case map_of r (u ''subject'') of None \<Rightarrow> u ''(no subject)'' | Some v \<Rightarrow> v) @ [10]
     @ u ''Received: '' @ get r (u ''received_at'') [] @ [10]
     @ u ''Body:'' @ [10]
     @ take 4000 (get r (u ''body'') []) @ [10]"
    using build_prompt_explicit [of r] unfolding get_def .
  show "fst (summarize_emails e rows config True) =
       Inr (map (\<lambda>r. \<lparr>sender = (case map_of r (u ''sender'') of
                                     None \<Rightarrow> u ''Unknown'' | Some v \<Rightarrow> v),
                        subject = (case map_of r (u ''subject'') of
                                     None \<Rightarrow> u ''(no subject)'' | Some v \<Rightarrow> v),
                        summary = u ''[dry-run] '' @ template_first_line\<rparr>) rows)"
    by (simp add: summarize_emails_def summarize_loop_dry_run dry_run_summary_def
        make_summary_def get_def del: summarize_loop.simps)
  show "fst (summarize_emails e rows config False) =
       Inr (List.map_filter
              (\<lambda>kr. case gemini_request e (fst kr) (get config (u ''GEMINI_API_KEY'') [])
                            (get config (u ''GEMINI_MODEL'') (u ''gemini-1.5-flash''))
                            (build_prompt (snd kr)) of
                       Inl exc \<Rightarrow> None
                     | Inr summary_text \<Rightarrow>
                         Some \<lparr>sender = (case map_of (snd kr) (u ''sender'') of
                                           None \<Rightarrow> u ''Unknown'' | Some v \<Rightarrow> v),
                               subject = (case map_of (snd kr) (u ''subject'') of
                                            None \<Rightarrow> u ''(no subject)'' | Some v \<Rightarrow> v),
                               summary = summary_text\<rparr>)
              (List.enumerate 0 rows))"
    unfolding summarize_emails_def Let_def summarize_loop_live attempt_def make_summary_def
      get_def
    by simp
qed

theorem placeholder_defaulting_witness:
  "fst (summarize_emails example_env [row_anon] example_config True) =
     Inr [\<lparr>sender = u ''Unknown'', subject = u ''(no subject)'',
           summary = u ''[dry-run] '' @ template_first_line\<rparr>]"
proof -
  have absent: "map_of row_anon (u ''sender'') = None" "map_of row_anon (u ''subject'') = None"
    by (simp_all add: row_anon_def u_def)
  from placeholder_defaulting [of row_anon example_env "[row_anon]" example_config]
  show ?thesis
    by (simp add: absent)
qed

text \<open>
  The claim C2 as written fails for a row whose sender and subject are present and empty:
  both stay empty in the summary record and in the prompt.
\<close>

theorem placeholder_defaulting_counterexample:
  "sender (make_summary [(u ''sender'', []), (u ''subject'', [])] (u ''ok'')) = []
   \<and> subject (make_summary [(u ''sender'', []), (u ''subject'', [])] (u ''ok'')) = []
   \<and> build_prompt [(u ''sender'', []), (u ''subject'', [])] =
       template_first_line @ [10] @ u ''Sender: '' @ [10] @ u ''Subject: '' @ [10]
       @ u ''Received: '' @ [10] @ u ''Body:'' @ [10] @ [10]"
  by (simp add: make_summary_def build_prompt_explicit get_def u_def)

section \<open>Properties of the orchestrator\<close>

lemma gemini_posts_append: "gemini_posts (xs @ ys) = gemini_posts xs @ gemini_posts ys"
  by (induction xs rule: gemini_posts.induct) simp_all

lemma discord_posts_append: "discord_posts (xs @ ys) = discord_posts xs @ discord_posts ys"
  by (induction xs rule: discord_posts.induct) simp_all

lemma dry_run_logs_append: "dry_run_logs (xs @ ys) = dry_run_logs xs @ dry_run_logs ys"
  by (induction xs rule: dry_run_logs.induct) simp_all

lemma posts_of_gemini_posts:
  "gemini_posts (map GeminiPost ps) = ps"
  "discord_posts (map GeminiPost ps) = []"
  "dry_run_logs (map GeminiPost ps) = []"
  by (induction ps) simp_all

lemma posts_of_dry_run_logs:
  "gemini_posts (map LogDryRun ss) = []"
  "discord_posts (map LogDryRun ss) = []"
  "dry_run_logs (map LogDryRun ss) = ss"
  by (induction ss) simp_all

lemma posts_of_gemini_posts_comp:
  "gemini_posts (map (GeminiPost \<circ> f) xs) = map f xs"
  "discord_posts (map (GeminiPost \<circ> f) xs) = []"
  "dry_run_logs (map (GeminiPost \<circ> f) xs) = []"
  by (induction xs) simp_all

lemma posts_of_dry_run_logs_comp:
  "gemini_posts (map (LogDryRun \<circ> g) xs) = []"
  "discord_posts (map (LogDryRun \<circ> g) xs) = []"
  "dry_run_logs (map (LogDryRun \<circ> g) xs) = map g xs"
  by (induction xs) simp_all

lemmas posts_simps = posts_of_gemini_posts_comp posts_of_dry_run_logs_comp
  gemini_posts_append discord_posts_append dry_run_logs_append
  posts_of_gemini_posts posts_of_dry_run_logs

lemma slice_to_Nil: "slice_to n [] = []"
  by (simp add: slice_to_def)

lemma summarize_emails_dry_run:
  "summarize_emails e rows config True = (Inr (map dry_run_summary rows), [])"
  by (simp add: summarize_emails_def summarize_loop_dry_run)

lemma summarize_emails_live:
  "summarize_emails e rows config False =
     (Inr (List.map_filter
             (attempt e (get config (u ''GEMINI_API_KEY'') [])
                (get config (u ''GEMINI_MODEL'') (u ''gemini-1.5-flash'')))
             (List.enumerate 0 rows)),
      map build_prompt rows)"
  by (simp add: summarize_emails_def summarize_loop_live)

lemma handled_all:
  "takeWhile (\<lambda>r. \<not> body_is_none r) rows = rows \<longleftrightarrow> \<not> list_ex body_is_none rows"
  by (simp add: takeWhile_eq_all_conv list_ex_iff)

lemma main_try_dry_run_parsed:
  assumes "script_exists e" and "osascript e = 0" and "parse_tsv (export_file e) = Inr emails"
  shows "main_try e config n True =
           (if list_ex body_is_none (slice_to n emails)
            then (Inl TypeError, export_file e \<noteq> None, [Osascript])
            else (Inr 0, export_file e \<noteq> None,
                  Osascript # map LogDryRun
                    (map dry_run_summary (map formatted (slice_to n emails)))))"
proof (cases "list_ex body_is_none (slice_to n emails)")
  case True
  then have ne: "takeWhile (\<lambda>r. \<not> body_is_none r) (slice_to n emails) \<noteq> slice_to n emails"
    using handled_all [of "slice_to n emails"] by blast
  from True have "emails \<noteq> []"
    by (auto simp: slice_to_Nil)
  with assms True ne show ?thesis
    unfolding main_try_def run_applescript_def summarize_emails_dry_run Let_def
    by simp
next
  case False
  then have eq: "takeWhile (\<lambda>r. \<not> body_is_none r) (slice_to n emails) = slice_to n emails"
    using handled_all [of "slice_to n emails"] by blast
  from assms False eq show ?thesis
    by (simp add: main_try_def run_applescript_def summarize_emails_dry_run Let_def
        slice_to_Nil del: takeWhile_eq_all_conv)
qed

lemma main_try_dry_run:
  "main_try e config n True =
     (if \<not> script_exists e then (Inl FileNotFoundError, True, [])
      else if osascript e \<noteq> 0
        then (Inl (CalledProcessError (osascript e)), export_file e \<noteq> None, [Osascript])
      else (case parse_tsv (export_file e) of
              Inl exc \<Rightarrow> (Inl exc, export_file e \<noteq> None, [Osascript])
            | Inr emails \<Rightarrow>
                if list_ex body_is_none (slice_to n emails)
                then (Inl TypeError, export_file e \<noteq> None, [Osascript])
                else (Inr 0, export_file e \<noteq> None,
                      Osascript # map LogDryRun
                        (map dry_run_summary (map formatted (slice_to n emails))))))"
proof (cases "script_exists e \<and> osascript e = 0")
  case False
  then show ?thesis
    by (auto simp: main_try_def run_applescript_def)
next
  case True
  show ?thesis
  proof (cases "parse_tsv (export_file e)")
    case (Inl exc)
    with True show ?thesis
      by (simp add: main_try_def run_applescript_def)
  next
    case (Inr emails)
    with True main_try_dry_run_parsed [of e emails config n] show ?thesis
      by simp
  qed
qed

lemma trace_main: "trace (main e config n dry_run) = snd (snd (main_try e config n dry_run)) @ [Unlink]"
  by (simp add: main_def split: prod.splits)

lemma status_main: "status (main e config n dry_run) = fst (main_try e config n dry_run)"
  by (simp add: main_def unlink_def split: prod.splits)

lemma gemini_posts_main_try_live:
  assumes "script_exists e" and "osascript e = 0" and "parse_tsv (export_file e) = Inr emails"
  shows "gemini_posts (snd (snd (main_try e config n False))) =
           map build_prompt
             (map formatted (takeWhile (\<lambda>r. \<not> body_is_none r) (slice_to n emails)))"
  using assms
  by (simp add: main_try_def run_applescript_def summarize_emails_live slice_to_Nil Let_def
      posts_simps split: sum.splits option.splits)

lemma formatted_cells: "formatted (cells r) = r"
  by (induction r) (auto simp: formatted_def cells_def str_of_cell_def)

lemma body_is_none_cells: "\<not> body_is_none (cells r)"
  by (induction r) (auto simp: body_is_none_def cells_def)

lemma parse_example:
  "parse_tsv (Some [cells row_bob, cells row_alice, cells row_carol]) =
     Inr [cells row_alice, cells row_bob, cells row_carol]"
  by (simp add: parse_tsv_Some sort_reverse_cells_def sort_reverse_def fill_received_at_def
      get_def setitem_def cells_def row_bob_def row_alice_def row_carol_def u_def key_str_def)

text \<open>
  C4. When the export succeeds and the parser returns more rows than the cap \<open>n\<close> (a
  count, so \<open>0 \<le> n\<close>), the prompts sent to the summarization backend are those of the
  first \<open>n\<close> records of the sorted sequence, in that order, up to the first of them whose
  body is \<open>None\<close>: all \<open>n\<close> of them when none has such a body, and then a dry run logs the
  summaries of the same \<open>n\<close> records. No record beyond the cap reaches the summarization
  stage.
\<close>

theorem record_cap:
  assumes "script_exists e" and "osascript e = 0"
    and "parse_tsv (export_file e) = Inr emails"
    and "0 \<le> n" and "nat n < length emails"
  shows "gemini_posts (trace (main e config n False)) =
           map build_prompt
             (map formatted (takeWhile (\<lambda>r. \<not> body_is_none r) (take (nat n) emails)))
         \<and> dry_run_logs (trace (main e config n True)) =
             (if list_ex body_is_none (take (nat n) emails) then []
              else map dry_run_summary (map formatted (take (nat n) emails)))
         \<and> (\<not> list_ex body_is_none (take (nat n) emails) \<longrightarrow>
              gemini_posts (trace (main e config n False)) =
                map build_prompt (map formatted (take (nat n) emails))
              \<and> length (gemini_posts (trace (main e config n False))) = nat n)
         \<and> length (take (nat n) emails) = nat n"
proof -
  have cap: "slice_to n emails = take (nat n) emails"
    using assms(4) by (simp add: slice_to_def)
  have posts: "gemini_posts (trace (main e config n False)) =
          map build_prompt
            (map formatted (takeWhile (\<lambda>r. \<not> body_is_none r) (take (nat n) emails)))"
    using gemini_posts_main_try_live [OF assms(1,2,3), of config n] cap
    by (simp add: trace_main posts_simps)
  have logs: "dry_run_logs (trace (main e config n True)) =
             (if list_ex body_is_none (take (nat n) emails) then []
              else map dry_run_summary (map formatted (take (nat n) emails)))"
    using assms(1,2,3) cap by (simp add: trace_main main_try_dry_run posts_simps)
  have len: "length (take (nat n) emails) = nat n"
    using assms(5) by simp
  have full: "gemini_posts (trace (main e config n False)) =
                map build_prompt (map formatted (take (nat n) emails))
              \<and> length (gemini_posts (trace (main e config n False))) = nat n"
    if "\<not> list_ex body_is_none (take (nat n) emails)"
  proof -
    from that have "takeWhile (\<lambda>r. \<not> body_is_none r) (take (nat n) emails) = take (nat n) emails"
      using handled_all [of "take (nat n) emails"] by blast
    with posts len show ?thesis
      by simp
  qed
  from posts logs len full show ?thesis
    by blast
qed

theorem record_cap_witness:
  "script_exists example_env \<and> osascript example_env = 0
   \<and> parse_tsv (export_file example_env) = Inr [cells row_alice, cells row_bob, cells row_carol]
   \<and> (0::int) \<le> 2 \<and> nat 2 < length [cells row_alice, cells row_bob, cells row_carol]
   \<and> gemini_posts (trace (main example_env example_config 2 False)) =
       [build_prompt row_alice, build_prompt row_bob]
   \<and> dry_run_logs (trace (main example_env example_config 2 True)) =
       [dry_run_summary row_alice, dry_run_summary row_bob]"
proof -
  have h1: "script_exists example_env" and h2: "osascript example_env = 0"
    by (simp_all add: example_env_def)
  have h3: "parse_tsv (export_file example_env) =
              Inr [cells row_alice, cells row_bob, cells row_carol]"
    by (simp add: example_env_def parse_example)
  have h4: "(0::int) \<le> 2"
    by simp
  have h5: "nat 2 < length [cells row_alice, cells row_bob, cells row_carol]"
    by simp
  have two: "take (nat 2) [cells row_alice, cells row_bob, cells row_carol] =
               [cells row_alice, cells row_bob]"
    by (simp add: numeral_2_eq_2)
  from record_cap [OF h1 h2 h3 h4 h5, of example_config] h1 h2 h3 show ?thesis
    unfolding two by (simp add: formatted_cells body_is_none_cells)
qed

text \<open>
  C6. Whatever the \<open>try\<close> body of \<open>main\<close> returns or raises, the temporary export file
  does not exist when \<open>main\<close> ends: the removal is the last thing the run does, it leaves
  the result of the body as it is, and it does not raise when the file is already absent.
\<close>

theorem temp_file_cleanup:
  "\<not> tmp_exists (main e config n dry_run)
   \<and> trace (main e config n dry_run) = snd (snd (main_try e config n dry_run)) @ [Unlink]
   \<and> status (main e config n dry_run) = fst (main_try e config n dry_run)
   \<and> unlink True False = (None, False)"
  by (simp add: trace_main status_main) (simp add: main_def unlink_def split: prod.splits)




section \<open>Properties of the digest formatter\<close>

lemma append_entries_concat:
  "append_entries lines summaries =
     lines @ concat (map (\<lambda>entry. [entry_header entry, strip (summary entry), divider]) summaries)"
  by (induction summaries arbitrary: lines) simp_all

lemma join_Cons: "ys \<noteq> [] \<Longrightarrow> join sep (x # ys) = x @ sep @ join sep ys"
  by (cases ys) simp_all

lemma spec_trim_left_dropWhile: "spec_trim_left s = dropWhile is_space s"
  by (induction s) simp_all

lemma strip_spec_trim: "strip s = spec_trim s"
  by (simp add: strip_def spec_trim_def spec_trim_left_dropWhile)

lemma divider_text: "divider = u ''------------------------------''"
  by (simp add: divider_def u_def eval_nat_numeral)

lemma join_butlast_entries:
  "summaries \<noteq> [] \<Longrightarrow>
   join [10] (butlast (concat (map (\<lambda>entry. [entry_header entry, strip (summary entry), divider])
                                summaries)))
   = spec_entries_text summaries"
proof (induction summaries rule: spec_entries_text.induct)
  case 1
  then show ?case by simp
next
  case (2 entry)
  show ?case by (simp add: spec_entry_def entry_header_def strip_spec_trim)
next
  case (3 entry next_entry entries)
  then show ?case by (simp add: spec_entry_def entry_header_def strip_spec_trim divider_text)
qed

lemma last_entries:
  "summaries \<noteq> [] \<Longrightarrow>
   last (lines @ concat (map (\<lambda>entry. [entry_header entry, strip (summary entry), divider])
                            summaries)) = divider"
  by (induction summaries rule: rev_induct) simp_all

lemma format_discord_payload_spec:
  assumes "summaries \<noteq> []"
  shows "format_discord_payload timestamp summaries = take 1900 (spec_digest_text timestamp summaries)"
proof -
  let ?title = "u ''**UTD Mail Digest - '' @ timestamp @ u ''**''"
  let ?body = "concat (map (\<lambda>entry. [entry_header entry, strip (summary entry), divider]) summaries)"
  have body: "?body \<noteq> []" "butlast ?body \<noteq> []"
    using assms by (cases summaries; simp)+
  have "butlast ([?title] @ ?body) = ?title # butlast ?body"
    using body by (simp add: butlast_append)
  then have "join [10] (butlast ([?title] @ ?body)) = ?title @ [10] @ spec_entries_text summaries"
    using body assms by (simp add: join_Cons join_butlast_entries)
  moreover have "last ([?title] @ ?body) = divider"
    using assms by (rule last_entries)
  ultimately show ?thesis
    by (simp add: format_discord_payload_def append_entries_concat spec_digest_text_def Let_def)
qed

lemma dropWhile_replicate: "\<not> P c \<Longrightarrow> dropWhile P (replicate n c) = replicate n c"
  by (cases n) simp_all

lemma spec_trim_replicate: "\<not> is_space c \<Longrightarrow> spec_trim (replicate n c) = replicate n c"
  by (simp add: spec_trim_def spec_trim_left_dropWhile dropWhile_replicate)

text \<open>
  C5. For a non-empty sequence of summaries the content is the digest text written out
  above (header line, then per summary the bold line of sender and subject and the
  trimmed text, a divider line between entries and none at the end) cut to its first 1900
  characters: it never has more than 1900 characters and has exactly 1900 when the text
  is longer.
\<close>

theorem format_discord_payload_digest:
  assumes "summaries \<noteq> []"
  shows "format_discord_payload timestamp summaries
           = take 1900 (spec_digest_text timestamp summaries)
         \<and> length (format_discord_payload timestamp summaries) \<le> 1900
         \<and> (1900 < length (spec_digest_text timestamp summaries)
              \<longrightarrow> length (format_discord_payload timestamp summaries) = 1900)"
  using format_discord_payload_spec [OF assms, of timestamp] by simp

theorem format_discord_payload_digest_witness:
  "[entry_a, entry_b] \<noteq> []
   \<and> format_discord_payload (u ''T'') [entry_a, entry_b] =
       u ''**UTD Mail Digest - T**'' @ [10]
       @ u ''**A'' @ [32, 8212, 32] @ u ''S**'' @ [10]
       @ u ''x'' @ [10]
       @ u ''------------------------------'' @ [10]
       @ u ''**B'' @ [32, 8212, 32] @ u ''T**'' @ [10]
       @ u ''y''
   \<and> [long_entry] \<noteq> []
   \<and> 1900 < length (spec_digest_text (u ''T'') [long_entry])
   \<and> length (format_discord_payload (u ''T'') [long_entry]) = 1900"
proof -
  have h: "[entry_a, entry_b] \<noteq> []" "[long_entry] \<noteq> []"
    by simp_all
  have trims: "spec_trim (u '' x '') = u ''x''" "spec_trim (u ''y'') = u ''y''"
    by (simp_all add: spec_trim_def u_def is_space_def)
  have shown: "spec_digest_text (u ''T'') [entry_a, entry_b] =
       u ''**UTD Mail Digest - T**'' @ [10]
       @ u ''**A'' @ [32, 8212, 32] @ u ''S**'' @ [10]
       @ u ''x'' @ [10]
       @ u ''------------------------------'' @ [10]
       @ u ''**B'' @ [32, 8212, 32] @ u ''T**'' @ [10]
       @ u ''y''"
    by (simp add: spec_digest_text_def spec_entry_def entry_a_def entry_b_def trims)
       (simp add: u_def)
  have short: "length (spec_digest_text (u ''T'') [entry_a, entry_b]) \<le> 1900"
    unfolding shown by (simp add: u_def)
  have long: "1900 < length (spec_digest_text (u ''T'') [long_entry])"
    by (simp add: spec_digest_text_def spec_entry_def long_entry_def spec_trim_replicate
        is_space_def)
  from format_discord_payload_digest [OF h(1), of "u ''T''"]
    format_discord_payload_digest [OF h(2), of "u ''T''"] long short shown
  show ?thesis
    by simp
qed

section \<open>Empty runs and the prompt\<close>



lemma get_setitem:
  "get (setitem r k v) k' d = (if k' = k then v else get r k' d)"
  by (simp add: get_def setitem_def update_conv')

lemma field_names_distinct:
  "u ''sender'' \<noteq> u ''body''" "u ''subject'' \<noteq> u ''body''" "u ''received_at'' \<noteq> u ''body''"
  by (simp_all add: u_def)

text \<open>
  C9. The prompt is the fixed template with sender, subject and time stamp of the record
  and the first 4000 characters of its body; what precedes the body does not depend on
  the body, and a body and its first 4000 characters give the same prompt.
\<close>

theorem build_prompt_body_truncation:
  "build_prompt r =
     template_first_line @ [10]
     @ u ''Sender: '' @ get r (u ''sender'') (u ''Unknown'') @ [10]
     @ u ''Subject: '' @ get r (u ''subject'') (u ''(no subject)'') @ [10]
     @ u ''Received: '' @ get r (u ''received_at'') [] @ [10]
     @ u ''Body:'' @ [10]
     @ take 4000 (get r (u ''body'') []) @ [10]
   \<and> length (take 4000 (get r (u ''body'') [])) \<le> 4000
   \<and> (\<exists>pre. \<forall>b. build_prompt (setitem r (u ''body'') b) = pre @ take 4000 b @ [10])
   \<and> build_prompt (setitem r (u ''body'') b)
       = build_prompt (setitem r (u ''body'') (take 4000 b))"
proof (intro conjI)
  show "build_prompt r =
     template_first_line @ [10]
     @ u ''Sender: '' @ get r (u ''sender'') (u ''Unknown'') @ [10]
     @ u ''Subject: '' @ get r (u ''subject'') (u ''(no subject)'') @ [10]
     @ u ''Received: '' @ get r (u ''received_at'') [] @ [10]
     @ u ''Body:'' @ [10]
     @ take 4000 (get r (u ''body'') []) @ [10]"
    by (rule build_prompt_explicit)
  show "length (take 4000 (get r (u ''body'') [])) \<le> 4000"
    by simp
  define pre where
    "pre = template_first_line @ [10]
           @ u ''Sender: '' @ get r (u ''sender'') (u ''Unknown'') @ [10]
           @ u ''Subject: '' @ get r (u ''subject'') (u ''(no subject)'') @ [10]
           @ u ''Received: '' @ get r (u ''received_at'') [] @ [10]
           @ u ''Body:'' @ [10]"
  have "build_prompt (setitem r (u ''body'') b') = pre @ take 4000 b' @ [10]" for b'
    unfolding pre_def
    by (simp add: build_prompt_explicit get_setitem field_names_distinct)
  then have "\<forall>b. build_prompt (setitem r (u ''body'') b) = pre @ take 4000 b @ [10]"
    by (rule allI)
  then show "\<exists>pre. \<forall>b. build_prompt (setitem r (u ''body'') b) = pre @ take 4000 b @ [10]"
    by (rule exI [of _ pre])
  show "build_prompt (setitem r (u ''body'') b)
          = build_prompt (setitem r (u ''body'') (take 4000 b))"
    by (simp add: build_prompt_explicit get_setitem field_names_distinct)
qed

end
